theory Spec2Isabelle
  imports Main "HOL-Library.AList"
begin

section \<open>buffer-static-upload: versioning and idempotent upload of static assets\<close>

text \<open>
  A shallow embedding of \<^verbatim>\<open>main.go\<close>. Go strings are byte sequences and are modelled as
  \<^typ>\<open>string\<close>; file contents are byte sequences too. Functions of the Go standard
  library that the program calls and whose result the properties below depend on
  (\<^verbatim>\<open>filepath.Ext\<close>, \<^verbatim>\<open>strings.Replace\<close>, \<^verbatim>\<open>strings.Split\<close>, \<^verbatim>\<open>path.Join\<close>)
  are written out after their Go implementation; those whose result is only passed
  along (MD5, the MIME table, the JSON and CSV encoders, glob matching with
  metacharacters), and what the storage SDK sends for an upload, are fields of the record
  \<open>extern\<close>.
\<close>

subsection \<open>Strings and paths (Go standard library)\<close>

type_synonym bytes = "char list"

text \<open>
  \<^verbatim>\<open>filepath.Ext\<close> scans the path from its last byte towards the first, stops at a
  path separator, and returns the suffix that starts at the first dot it meets.
  \<open>ext_scan\<close> walks the reversed path; its second argument is the suffix passed so far.
\<close>

fun ext_scan :: "string \<Rightarrow> string \<Rightarrow> string" where
  "ext_scan [] acc = []"
| "ext_scan (c # rest) acc =
     (if c = CHR ''/'' then []
      else if c = CHR ''.'' then c # acc
      else ext_scan rest (c # acc))"

definition Ext :: "string \<Rightarrow> string" where
  "Ext path = ext_scan (rev path) []"

definition HasPrefix :: "string \<Rightarrow> string \<Rightarrow> bool" where
  "HasPrefix s pre = (take (length pre) s = pre)"

text \<open>\<^verbatim>\<open>strings.Index\<close>: the index of the first instance of \<open>sub\<close> in \<open>s\<close>; \<open>None\<close> is Go's -1.\<close>

fun Index :: "string \<Rightarrow> string \<Rightarrow> nat option" where
  "Index [] sub = (if sub = [] then Some 0 else None)"
| "Index (c # cs) sub =
     (if HasPrefix (c # cs) sub then Some 0 else map_option Suc (Index cs sub))"

text \<open>
  \<^verbatim>\<open>strings.Replace(s, old, new, 1)\<close>, the only way the program calls it: \<open>s\<close> itself
  when \<open>old = new\<close> or \<open>old\<close> does not occur; otherwise the first instance of \<open>old\<close> is
  replaced. An empty \<open>old\<close> matches at the beginning of \<open>s\<close>.
\<close>

definition Replace_first :: "string \<Rightarrow> string \<Rightarrow> string \<Rightarrow> string" where
  "Replace_first s old new =
     (if old = new then s
      else case Index s old of
             None \<Rightarrow> s
           | Some j \<Rightarrow> take j s @ new @ drop (j + length old) s)"

subsection \<open>Filename versioner\<close>

definition GetVersionedFilename :: "string \<Rightarrow> string \<Rightarrow> string" where
  "GetVersionedFilename filename version =
     (let ext = Ext filename;
          versionedExt = ''.'' @ version @ ext;
          versionedFilename = Replace_first filename ext versionedExt
      in versionedFilename)"

text \<open>
  The extension test of \<^verbatim>\<open>VersionAndUploadFiles\<close> and the name it uploads under
  (\<^verbatim>\<open>uploadFilename\<close>), given the checksum of the file.
\<close>

definition versionable :: "string \<Rightarrow> bool" where
  "versionable filename = (let ext = Ext filename in ext = ''.js'' \<or> ext = ''.css'')"

definition versionedKey :: "string \<Rightarrow> string \<Rightarrow> string" where
  "versionedKey filename checksum =
     (if versionable filename then GetVersionedFilename filename checksum else filename)"

subsection \<open>Splitting and joining\<close>

text \<open>
  \<^verbatim>\<open>strings.Split(s, sep)\<close> for a separator of one byte: the pieces between the
  separators, so the empty string gives one empty piece.
\<close>

fun Split :: "string \<Rightarrow> char \<Rightarrow> string list" where
  "Split [] sep = [[]]"
| "Split (c # cs) sep =
     (if c = sep then [] # Split cs sep
      else case Split cs sep of
             [] \<Rightarrow> [[c]]
           | piece # pieces \<Rightarrow> (c # piece) # pieces)"

text \<open>
  \<^verbatim>\<open>path.Clean\<close>. The Go loop reads the path element by element and writes to a
  buffer \<open>out\<close>; \<open>dotdot\<close> is the index in \<open>out\<close> below which a \<^verbatim>\<open>..\<close> element may
  not remove anything. \<open>backtrack out dotdot w\<close> is the inner loop that lowers the write
  index \<open>w\<close> to the last slash.
\<close>

fun backtrack :: "string \<Rightarrow> nat \<Rightarrow> nat \<Rightarrow> nat" where
  "backtrack out dotdot 0 = 0"
| "backtrack out dotdot (Suc w) =
     (if Suc w > dotdot \<and> out ! Suc w \<noteq> CHR ''/'' then backtrack out dotdot w else Suc w)"

fun clean_elems :: "bool \<Rightarrow> string list \<Rightarrow> string \<Rightarrow> nat \<Rightarrow> string" where
  "clean_elems rooted [] out dotdot = out"
| "clean_elems rooted (e # es) out dotdot =
     (if e = [] \<or> e = ''.'' then clean_elems rooted es out dotdot
      else if e = ''..'' then
        (if length out > dotdot
           then clean_elems rooted es (take (backtrack out dotdot (length out - 1)) out) dotdot
         else if \<not> rooted
           then (let out' = (if length out > 0 then out @ ''/'' else out) @ ''..''
                 in clean_elems rooted es out' (length out'))
         else clean_elems rooted es out dotdot)
      else clean_elems rooted es
             ((if (rooted \<and> length out \<noteq> 1) \<or> (\<not> rooted \<and> length out \<noteq> 0)
               then out @ ''/'' else out) @ e) dotdot)"

definition Clean :: "string \<Rightarrow> string" where
  "Clean path =
     (case path of
        [] \<Rightarrow> ''.''
      | c # cs \<Rightarrow>
          (let rooted = (c = CHR ''/'');
               out = (if rooted then clean_elems rooted (Split cs (CHR ''/'')) ''/'' 1
                      else clean_elems rooted (Split path (CHR ''/'')) [] 0)
           in if out = [] then ''.'' else out))"

fun join_slash :: "string list \<Rightarrow> string" where
  "join_slash [] = []"
| "join_slash [e] = e"
| "join_slash (e # es) = e @ ''/'' @ join_slash es"

text \<open>\<^verbatim>\<open>path.Join\<close>: empty elements are ignored, the rest is joined by slashes and cleaned.\<close>

definition Join :: "string list \<Rightarrow> string" where
  "Join elem =
     (let nonempty = filter (\<lambda>e. e \<noteq> []) elem
      in if nonempty = [] then [] else Clean (join_slash nonempty))"

subsection \<open>URL resolver\<close>

definition defaultS3Bucket :: string where
  "defaultS3Bucket = ''static.buffer.com''"

definition GetFileURL :: "string \<Rightarrow> string \<Rightarrow> string" where
  "GetFileURL bucket bucketFilename =
     (if bucket = defaultS3Bucket then ''https://'' @ Join [bucket, bucketFilename]
      else ''https://s3.amazonaws.com'' @ Join [''/'', bucket, ''/'', bucketFilename])"

subsection \<open>Errors, files and file handles\<close>

text \<open>A Go \<^verbatim>\<open>error\<close> value, with its message.\<close>

datatype err = Err string

text \<open>
  The local file system maps a path to what is there. \<^verbatim>\<open>os.Open\<close> fails on a path
  with nothing (readable) behind it and succeeds on a regular file and on a directory;
  reading a directory fails. A handle (\<^verbatim>\<open>*os.File\<close>) is the opened node together
  with its read offset, which every read advances.
\<close>

datatype node = Regular bytes | Directory

type_synonym filesystem = "string \<rightharpoonup> node"

record os_File =
  opened :: node
  offset :: nat

definition os_Open :: "filesystem \<Rightarrow> string \<Rightarrow> err + os_File" where
  "os_Open fsys name =
     (case (if name = [] then None else fsys name) of
        None \<Rightarrow> Inl (Err (''open '' @ name @ '': no such file or directory''))
      | Some n \<Rightarrow> Inr \<lparr>opened = n, offset = 0\<rparr>)"

text \<open>
  Reading a handle as an \<^verbatim>\<open>io.Reader\<close> until end of file, as \<^verbatim>\<open>io.Copy\<close> does:
  the bytes from the current offset on, and the offset ends at the end of the file.
\<close>

definition read_to_EOF :: "os_File \<Rightarrow> (err + bytes) \<times> os_File" where
  "read_to_EOF file =
     (case opened file of
        Directory \<Rightarrow> (Inl (Err ''read: is a directory''), file)
      | Regular content \<Rightarrow>
          (Inr (drop (offset file) content),
           file\<lparr>offset := max (offset file) (length content)\<rparr>))"

subsection \<open>External collaborators\<close>

text \<open>
  The manifest is Go's \<^verbatim>\<open>map[string]string\<close>, kept as an association list in which
  \<^const>\<open>AList.update\<close> overwrites the value of a key that is present and adds a key that
  is not. Go fixes no iteration order for a map; \<open>map_range\<close> below is the order of one
  \<^verbatim>\<open>range\<close> loop.

  The upload is done by the storage SDK (\<^verbatim>\<open>uploader.Upload\<close>), which is not part of
  the program. The program hands it the open file as \<^verbatim>\<open>Body\<close>; which bytes of the file
  the SDK sends for a handle at a given offset is its own affair and differs between
  its releases. \<open>sent_of_Body\<close> is that function: the bytes sent for a handle, or the error
  of reading it.
\<close>

type_synonym manifest = "(string \<times> string) list"

record extern =
  md5_Sum :: "bytes \<Rightarrow> bytes"
  TypeByExtension :: "string \<Rightarrow> string"
  MarshalIndent :: "manifest \<Rightarrow> string \<Rightarrow> string \<Rightarrow> err + bytes"
  csv_Write :: "string list \<Rightarrow> bytes"
  map_range :: "manifest \<Rightarrow> (string \<times> string) list"
  glob_meta :: "filesystem \<Rightarrow> string \<Rightarrow> err + string list"
  sent_of_Body :: "os_File \<Rightarrow> err + bytes"
  elapsed :: string

subsection \<open>Fingerprinter\<close>

definition hextable :: string where
  "hextable = ''0123456789abcdef''"

definition EncodeToString :: "bytes \<Rightarrow> string" where
  "EncodeToString src =
     concat (map (\<lambda>b. [hextable ! (of_char b div 16), hextable ! (of_char b mod 16)]) src)"

definition GetFileMd5 :: "extern \<Rightarrow> os_File \<Rightarrow> (err + string) \<times> os_File" where
  "GetFileMd5 X file =
     (case read_to_EOF file of
        (Inl e, file') \<Rightarrow> (Inl e, file')
      | (Inr copied, file') \<Rightarrow>
          (let hashInBytes = take 16 (md5_Sum X copied);
               fileHash = EncodeToString hashInBytes
           in (Inr fileHash, file')))"

definition GetFileMimeType :: "extern \<Rightarrow> string \<Rightarrow> string" where
  "GetFileMimeType X filename = (let ext = Ext filename in TypeByExtension X ext)"

subsection \<open>Remote store\<close>

text \<open>
  The bucket service as the program sees it: the stored objects by bucket and key, the
  requests received so far, and the failures (network, authorisation) that the
  environment inflicts on a HEAD or on an upload of a key. A HEAD request on a key
  succeeds when nothing fails and an object is stored there.

  \<open>Upload\<close> stores under the key the bytes that the SDK sends for the handle it is given
  (\<open>sent_of_Body\<close>). An upload that fails leaves the stored objects as they were. The
  expiry date, set from the clock, is left out of the stored object.
\<close>

record s3_object =
  body :: bytes
  ContentType :: string
  CacheControl :: string

datatype request = HeadObject string string | PutObject string string bytes

record s3 =
  objects :: "string \<times> string \<rightharpoonup> s3_object"
  head_fault :: "string \<times> string \<Rightarrow> err option"
  put_fault :: "string \<times> string \<Rightarrow> err option"
  requests :: "request list"

definition HeadObject_Send :: "s3 \<Rightarrow> string \<Rightarrow> string \<Rightarrow> err option \<times> s3" where
  "HeadObject_Send svc bucket key =
     ((case head_fault svc (bucket, key) of
         Some e \<Rightarrow> Some e
       | None \<Rightarrow> (case objects svc (bucket, key) of
                    None \<Rightarrow> Some (Err ''NotFound: Not Found'')
                  | Some obj \<Rightarrow> None)),
      svc\<lparr>requests := requests svc @ [HeadObject bucket key]\<rparr>)"

definition HasPreviousUpload :: "s3 \<Rightarrow> string \<Rightarrow> string \<Rightarrow> bool \<times> s3" where
  "HasPreviousUpload svc bucket filename =
     (case HeadObject_Send svc bucket filename of
        (err, svc') \<Rightarrow> (if err = None then True else False, svc'))"

definition Upload ::
  "extern \<Rightarrow> s3 \<Rightarrow> string \<Rightarrow> string \<Rightarrow> string \<Rightarrow> string \<Rightarrow> os_File \<Rightarrow> err option \<times> s3" where
  "Upload X svc bucket key contentType cacheControl file =
     (case sent_of_Body X file of
        Inl e \<Rightarrow> (Some e, svc)
      | Inr sent \<Rightarrow>
          (let svc' = svc\<lparr>requests := requests svc @ [PutObject bucket key sent]\<rparr>
           in case put_fault svc (bucket, key) of
                Some e \<Rightarrow> (Some e, svc')
              | None \<Rightarrow>
                  (None, svc'\<lparr>objects := (objects svc)((bucket, key) \<mapsto>
                     \<lparr>body = sent, ContentType = contentType, CacheControl = cacheControl\<rparr>)\<rparr>)))"

definition UploadFile :: "extern \<Rightarrow> s3 \<Rightarrow> os_File \<Rightarrow> string \<Rightarrow> string \<Rightarrow> err option \<times> s3" where
  "UploadFile X svc file filename bucket =
     (let mimeType = GetFileMimeType X filename
      in Upload X svc bucket filename mimeType ''public, max-age=31520626'' file)"

subsection \<open>Batch orchestrator\<close>

text \<open>
  What a run can see and change: the local files, whether a write to a path fails, the
  environment variables, the bucket service, and what was printed.
\<close>

record world =
  fsys :: filesystem
  write_fault :: "string \<Rightarrow> err option"
  getenv :: "string \<Rightarrow> string"
  svc :: s3
  stdout :: "string list"

definition print :: "string \<Rightarrow> world \<Rightarrow> world" where
  "print line w = w\<lparr>stdout := stdout w @ [line]\<rparr>"

text \<open>\<^verbatim>\<open>fmt.Printf("%-10s %s\n", outcome, filename)\<close>: the outcome padded to ten columns.\<close>

definition outcome_line :: "string \<Rightarrow> string \<Rightarrow> string" where
  "outcome_line outcome filename =
     outcome @ replicate (10 - length outcome) (CHR '' '') @ '' '' @ filename @ [CHR 0x0A]"

text \<open>
  One iteration of the loop of \<^verbatim>\<open>VersionAndUploadFiles\<close>: \<open>Inl\<close> is an early return
  with the error, \<open>Inr\<close> the manifest after the iteration. The handle \<open>file\<close> is local to
  the iteration; closing it, deferred to the return of the function, has no effect on
  what is modelled here.
\<close>

definition upload_step ::
  "extern \<Rightarrow> string \<Rightarrow> string \<Rightarrow> bool \<Rightarrow> string \<Rightarrow> manifest \<Rightarrow> world \<Rightarrow> (err + manifest) \<times> world" where
  "upload_step X bucket directory dryRun filename fileVersions w =
     (case os_Open (fsys w) filename of
        Inl e \<Rightarrow> (Inl e, w)
      | Inr file \<Rightarrow>
          (case (if versionable filename
                 then (case GetFileMd5 X file of
                         (Inl errMd5, file') \<Rightarrow> Inl errMd5
                       | (Inr checksum, file') \<Rightarrow>
                           Inr (GetVersionedFilename filename checksum, file'))
                 else Inr (filename, file)) of
             Inl e \<Rightarrow> (Inl e, w)
           | Inr (uploadFilename, file) \<Rightarrow>
               (let bucketFilename = Join [directory, uploadFilename];
                    fileURL = GetFileURL bucket bucketFilename;
                    (previous, svc1) = HasPreviousUpload (svc w) bucket bucketFilename;
                    shouldUpload = \<not> previous;
                    (err, svc2) = (if shouldUpload \<and> \<not> dryRun
                                   then UploadFile X svc1 file bucketFilename bucket
                                   else (None, svc1))
                in case err of
                     Some e \<Rightarrow> (Inl e, w\<lparr>svc := svc2\<rparr>)
                   | None \<Rightarrow>
                       (Inr (AList.update filename fileURL fileVersions),
                        print (outcome_line (if shouldUpload then ''Uploaded'' else ''Skipped'')
                                 filename)
                          (w\<lparr>svc := svc2\<rparr>)))))"

fun upload_loop ::
  "extern \<Rightarrow> string \<Rightarrow> string \<Rightarrow> bool \<Rightarrow> string list \<Rightarrow> manifest \<Rightarrow> world \<Rightarrow> (manifest \<times> err option) \<times> world" where
  "upload_loop X bucket directory dryRun [] fileVersions w = ((fileVersions, None), w)"
| "upload_loop X bucket directory dryRun (filename # filenames) fileVersions w =
     (case upload_step X bucket directory dryRun filename fileVersions w of
        (Inl e, w') \<Rightarrow> ((fileVersions, Some e), w')
      | (Inr fileVersions', w') \<Rightarrow> upload_loop X bucket directory dryRun filenames fileVersions' w')"

definition VersionAndUploadFiles ::
  "extern \<Rightarrow> string \<Rightarrow> string \<Rightarrow> string list \<Rightarrow> bool \<Rightarrow> world \<Rightarrow> (manifest \<times> err option) \<times> world" where
  "VersionAndUploadFiles X bucket directory filenames dryRun w =
     upload_loop X bucket directory dryRun filenames []
       (print (''Uploading to '' @ bucket @ ''/'' @ directory @ [CHR 0x0A]) w)"

subsection \<open>Manifest formatter\<close>

text \<open>
  The result is Go's pair of a byte slice and an error; the \<^verbatim>\<open>nil\<close> slice is the empty
  one. The CSV branch writes one row per entry, in the order of the \<^verbatim>\<open>range\<close> loop.
\<close>

definition FormatManifest :: "extern \<Rightarrow> manifest \<Rightarrow> string \<Rightarrow> bytes \<times> err option" where
  "FormatManifest X fileVersions format =
     (if format = ''json'' then
        (case MarshalIndent X fileVersions [] ''  '' of
           Inl e \<Rightarrow> ([], Some e)
         | Inr encoded \<Rightarrow> (encoded, None))
      else if format = ''csv'' then
        (concat (map (\<lambda>(filename, uri). csv_Write X [filename, uri]) (map_range X fileVersions)),
         None)
      else ([], None))"

subsection \<open>Glob expansion\<close>

text \<open>
  \<^verbatim>\<open>filepath.Glob\<close>: a pattern without metacharacters matches itself when
  \<^verbatim>\<open>os.Lstat\<close> finds it and nothing otherwise; any other pattern is matched by
  \<open>glob_meta\<close>. The empty path names no file.
\<close>

definition hasMeta :: "string \<Rightarrow> bool" where
  "hasMeta path = list_ex (\<lambda>c. c \<in> set [CHR ''*'', CHR ''?'', CHR ''['', CHR 0x5C]) path"

definition os_Lstat :: "filesystem \<Rightarrow> string \<Rightarrow> err option" where
  "os_Lstat fs name =
     (case (if name = [] then None else fs name) of
        None \<Rightarrow> Some (Err (''lstat '' @ name @ '': no such file or directory''))
      | Some n \<Rightarrow> None)"

definition Glob :: "extern \<Rightarrow> filesystem \<Rightarrow> string \<Rightarrow> string list \<times> err option" where
  "Glob X fs pattern =
     (if \<not> hasMeta pattern then
        (if os_Lstat fs pattern \<noteq> None then ([], None) else ([pattern], None))
      else (case glob_meta X fs pattern of
              Inl e \<Rightarrow> ([], Some e)
            | Inr matches \<Rightarrow> (matches, None)))"

fun glob_loop :: "extern \<Rightarrow> filesystem \<Rightarrow> string list \<Rightarrow> string list \<Rightarrow> string list \<times> err option" where
  "glob_loop X fs [] files = (files, None)"
| "glob_loop X fs (glob # globs) files =
     (case Glob X fs glob of
        (fileList, Some e) \<Rightarrow> (files, Some e)
      | (fileList, None) \<Rightarrow> glob_loop X fs globs (files @ fileList))"

definition GetFilesFromGlobsList :: "extern \<Rightarrow> filesystem \<Rightarrow> string \<Rightarrow> string list \<times> err option" where
  "GetFilesFromGlobsList X fs globList =
     (let globs = Split globList (CHR '','') in glob_loop X fs globs [])"

subsection \<open>The command\<close>

definition VERSION :: string where
  "VERSION = ''0.2.0''"

text \<open>The parsed command line, with the defaults of the flag declarations.\<close>

record flags =
  flag_bucket :: string
  flag_dir :: string
  flag_files :: string
  flag_o :: string
  flag_format :: string
  flag_dry_run :: bool
  flag_v :: bool

definition default_flags :: flags where
  "default_flags =
     \<lparr>flag_bucket = defaultS3Bucket, flag_dir = [], flag_files = [],
      flag_o = ''staticAssets.json'', flag_format = ''json'',
      flag_dry_run = False, flag_v = False\<rparr>"

text \<open>\<^verbatim>\<open>%d\<close> of a length.\<close>

fun itoa :: "nat \<Rightarrow> string" where
  "itoa n = (if n < 10 then [hextable ! n] else itoa (n div 10) @ [hextable ! (n mod 10)])"

declare itoa.simps [simp del]

text \<open>
  \<^verbatim>\<open>fatal\<close> prints the message and exits with status 1. It hands its variadic
  arguments to \<^verbatim>\<open>Printf\<close> as one slice, so \<^verbatim>\<open>%s\<close> prints the error in brackets.
\<close>

definition fatal :: "string \<Rightarrow> err option \<Rightarrow> world \<Rightarrow> nat \<times> world" where
  "fatal format a w =
     (let s = ''Error: '' @ format @ [CHR 0x0A]
      in case a of
           Some (Err msg) \<Rightarrow> (1, print (Replace_first s ''%s'' (''['' @ msg @ '']'')) w)
         | None \<Rightarrow> (1, print s w))"

text \<open>
  \<^verbatim>\<open>SetupS3Uploader\<close>: static credentials from the environment are refused when
  the key or the secret is empty. Creating the session is taken to succeed.
\<close>

definition SetupS3Uploader :: "world \<Rightarrow> err option" where
  "SetupS3Uploader w =
     (let awsAccessKeyID = getenv w ''AWS_ACCESS_KEY_ID'';
          awsSecretAccessKey = getenv w ''AWS_SECRET_ACCESS_KEY''
      in if awsAccessKeyID = [] \<or> awsSecretAccessKey = []
         then Some (Err ''EmptyStaticCreds: static credentials are empty'')
         else None)"

definition WriteFile :: "string \<Rightarrow> bytes \<Rightarrow> world \<Rightarrow> err option \<times> world" where
  "WriteFile name data w =
     (case write_fault w name of
        Some e \<Rightarrow> (Some e, w)
      | None \<Rightarrow> (None, w\<lparr>fsys := (fsys w)(name \<mapsto> Regular data)\<rparr>))"

text \<open>
  \<open>main\<close> returns the exit status and the world it leaves. \<open>main_run\<close> is the part of
  \<^verbatim>\<open>main\<close> after the check of the flags: glob expansion, client setup, upload,
  formatting and writing of the manifest.
\<close>

definition main_run :: "extern \<Rightarrow> flags \<Rightarrow> world \<Rightarrow> nat \<times> world" where
  "main_run X fl w =
     (case GetFilesFromGlobsList X (fsys w) (flag_files fl) of
        (files, Some e) \<Rightarrow> fatal ''failed to get files %s'' (Some e) w
      | (files, None) \<Rightarrow>
          (let w1 = print (''Found '' @ itoa (length files)
                            @ '' files to upload and version:'' @ [CHR 0x0A]) w
           in case SetupS3Uploader w1 of
                Some e \<Rightarrow> fatal ''failed to load AWS credentials %s'' (Some e) w1
              | None \<Rightarrow>
                  (case VersionAndUploadFiles X (flag_bucket fl) (flag_dir fl) files
                          (flag_dry_run fl) w1 of
                     ((fileVersions, Some e), w2) \<Rightarrow>
                       fatal ''failed to upload files %s'' (Some e) w2
                   | ((fileVersions, None), w2) \<Rightarrow>
                       (case FormatManifest X fileVersions (flag_format fl) of
                          (output, Some e) \<Rightarrow>
                            fatal ''failed to format versions manifest file %s'' (Some e) w2
                        | (output, None) \<Rightarrow>
                            (case (if \<not> flag_dry_run fl
                                   then WriteFile (flag_o fl) output w2
                                   else (None, w2)) of
                               (Some e, w3) \<Rightarrow>
                                 fatal ''failed to write versions mainifest file %s'' (Some e) w3
                             | (None, w3) \<Rightarrow>
                                 (if flag_dry_run fl then
                                    (0, print ([CHR 0x0A] @ ''Completed dry run in ''
                                               @ elapsed X @ [CHR 0x0A]) w3)
                                  else
                                    (0, print ([CHR 0x0A]
                                               @ ''Successfully uploaded static assets and generated ''
                                               @ flag_o fl @ '' in '' @ elapsed X @ [CHR 0x0A])
                                          w3)))))))"

definition main :: "extern \<Rightarrow> flags \<Rightarrow> world \<Rightarrow> nat \<times> world" where
  "main X fl w =
     (if flag_v fl then (0, print (VERSION @ [CHR 0x0A]) w)
      else if flag_dir fl = [] \<and> flag_bucket fl = defaultS3Bucket then
        fatal ''To use the default bucket you need to specify an upload directory (-dir)'' None w
      else main_run X fl w)"

subsection \<open>Derived notions used in the statements\<close>

text \<open>
  The fingerprint of a byte sequence, the content behind a path, the object key and
  the public URL that \<^verbatim>\<open>VersionAndUploadFiles\<close> computes for a file name, and the files
  it can open and, where it must, fingerprint.
\<close>

definition fingerprint :: "extern \<Rightarrow> bytes \<Rightarrow> string" where
  "fingerprint X content = EncodeToString (take 16 (md5_Sum X content))"

definition content_of :: "filesystem \<Rightarrow> string \<Rightarrow> bytes" where
  "content_of fs filename =
     (case fs filename of Some (Regular content) \<Rightarrow> content | Some Directory \<Rightarrow> [] | None \<Rightarrow> [])"

definition object_key :: "extern \<Rightarrow> filesystem \<Rightarrow> string \<Rightarrow> string \<Rightarrow> string" where
  "object_key X fs directory filename =
     Join [directory, versionedKey filename (fingerprint X (content_of fs filename))]"

definition file_url :: "extern \<Rightarrow> filesystem \<Rightarrow> string \<Rightarrow> string \<Rightarrow> string \<Rightarrow> string" where
  "file_url X fs bucket directory filename =
     GetFileURL bucket (object_key X fs directory filename)"

definition processable :: "filesystem \<Rightarrow> string \<Rightarrow> bool" where
  "processable fs filename =
     (filename \<noteq> [] \<and>
      (case fs filename of
         None \<Rightarrow> False
       | Some Directory \<Rightarrow> \<not> versionable filename
       | Some (Regular content) \<Rightarrow> True))"

definition is_put :: "request \<Rightarrow> bool" where
  "is_put r = (case r of PutObject bucket key sent \<Rightarrow> True | HeadObject bucket key \<Rightarrow> False)"

text \<open>
  The files of a list that a run reaches: those before the first one that cannot be
  processed. The manifest entries, the HEAD requests and the outcome lines that belong to
  a list of file names.
\<close>

definition processed :: "filesystem \<Rightarrow> string list \<Rightarrow> string list" where
  "processed fs filenames = takeWhile (processable fs) filenames"

definition entries ::
  "extern \<Rightarrow> filesystem \<Rightarrow> string \<Rightarrow> string \<Rightarrow> string list \<Rightarrow> manifest \<Rightarrow> manifest" where
  "entries X fs bucket directory filenames fileVersions =
     fold (\<lambda>filename. AList.update filename (file_url X fs bucket directory filename))
       filenames fileVersions"

definition head_requests ::
  "extern \<Rightarrow> filesystem \<Rightarrow> string \<Rightarrow> string \<Rightarrow> string list \<Rightarrow> request list" where
  "head_requests X fs bucket directory filenames =
     map (\<lambda>filename. HeadObject bucket (object_key X fs directory filename)) filenames"

definition outcome_lines ::
  "extern \<Rightarrow> world \<Rightarrow> string \<Rightarrow> string \<Rightarrow> string list \<Rightarrow> string list" where
  "outcome_lines X w bucket directory filenames =
     map (\<lambda>filename.
            outcome_line
              (if fst (HasPreviousUpload (svc w) bucket (object_key X (fsys w) directory filename))
               then ''Skipped'' else ''Uploaded'') filename) filenames"

subsection \<open>A small concrete world\<close>

text \<open>
  Stand-ins for the external functions (the uploader one that sends the whole file), an
  empty bucket service without failures, and a directory with one script and one image,
  used to run the definitions on.
\<close>

definition demo_extern :: extern where
  "demo_extern =
     \<lparr>md5_Sum = (\<lambda>content. replicate 16 (CHR ''J'')),
      TypeByExtension = (\<lambda>ext. if ext = ''.js'' then ''application/javascript'' else []),
      MarshalIndent = (\<lambda>m prefix indent. Inr ''{}''),
      csv_Write = (\<lambda>row. concat row @ [CHR 0x0A]),
      map_range = (\<lambda>m. m),
      glob_meta = (\<lambda>fs pattern. Inr []),
      sent_of_Body = (\<lambda>file. case opened file of
                                Regular content \<Rightarrow> Inr content
                              | Directory \<Rightarrow> Inl (Err ''read: is a directory'')),
      elapsed = ''1ms''\<rparr>"

definition demo_svc :: s3 where
  "demo_svc =
     \<lparr>objects = Map.empty, head_fault = (\<lambda>k. None), put_fault = (\<lambda>k. None), requests = []\<rparr>"

definition demo_world :: world where
  "demo_world =
     \<lparr>fsys = [''app.js'' \<mapsto> Regular ''xyz'', ''logo.png'' \<mapsto> Regular ''png''],
      write_fault = (\<lambda>name. None),
      getenv = (\<lambda>name. ''secret''),
      svc = demo_svc,
      stdout = []\<rparr>"

text \<open>The same world after both files have been published under \<^verbatim>\<open>v1\<close>.\<close>

definition demo_published :: world where
  "demo_published =
     demo_world\<lparr>svc := demo_svc\<lparr>objects :=
       [(''static.buffer.com'', ''v1/app.4a4a4a4a4a4a4a4a4a4a4a4a4a4a4a4a.js'')
          \<mapsto> \<lparr>body = ''xyz'', ContentType = ''application/javascript'',
               CacheControl = ''public, max-age=31520626''\<rparr>,
        (''static.buffer.com'', ''v1/logo.png'')
          \<mapsto> \<lparr>body = ''png'', ContentType = [], CacheControl = ''public, max-age=31520626''\<rparr>]\<rparr>\<rparr>"

text \<open>
  Two command lines: both files under the directory \<^verbatim>\<open>v1\<close> of the default bucket, and
  another bucket with no directory and no files.
\<close>

definition demo_flags :: flags where
  "demo_flags = default_flags\<lparr>flag_dir := ''v1'', flag_files := ''app.js,logo.png''\<rparr>"

definition other_bucket_flags :: flags where
  "other_bucket_flags = default_flags\<lparr>flag_bucket := ''assets.example.com''\<rparr>"

section \<open>Properties\<close>

subsection \<open>Filename versioner\<close>

lemma Ext_suffix: "\<exists>stem. path = stem @ Ext path"
proof -
  have "\<exists>front. rev p @ acc = front @ ext_scan p acc" for p acc
  proof (induction p arbitrary: acc)
    case Nil
    show ?case by simp
  next
    case (Cons c p)
    have "\<exists>front. rev p @ c # acc = front @ c # acc"
      by blast
    with Cons [of "c # acc"] show ?case
      by auto
  qed
  from this [of "rev path" "[]"] show ?thesis
    by (simp add: Ext_def)
qed

lemma GetVersionedFilename_spliced:
  assumes "Index filename (Ext filename) = Some (length filename - length (Ext filename))"
  shows "GetVersionedFilename filename version
           = take (length filename - length (Ext filename)) filename @ ''.'' @ version @ Ext filename"
proof -
  obtain stem where "filename = stem @ Ext filename"
    using Ext_suffix by blast
  then have "length (Ext filename) \<le> length filename"
    by (metis length_append le_add2)
  moreover have "Ext filename \<noteq> ''.'' @ version @ Ext filename"
    by (metis append_self_conv2 append_assoc append_Cons list.distinct(1) same_append_eq append_Nil)
  ultimately show ?thesis
    using assms by (simp add: GetVersionedFilename_def Replace_first_def Let_def)
qed

lemma GetVersionedFilename_empty_ext:
  "Ext filename = [] \<Longrightarrow> GetVersionedFilename filename version = ''.'' @ version @ filename"
  by (cases filename) (simp_all add: GetVersionedFilename_def Replace_first_def HasPrefix_def)

lemma versionedKey_other_extension:
  "Ext filename \<noteq> ''.js'' \<Longrightarrow> Ext filename \<noteq> ''.css'' \<Longrightarrow> versionedKey filename checksum = filename"
  by (simp add: versionedKey_def versionable_def)

text \<open>
  C2. Claimed: the key of a \<^verbatim>\<open>.js\<close> or \<^verbatim>\<open>.css\<close> file is the file name with the fingerprint
  spliced in immediately before the final extension, every other character, directory
  components included, unchanged. The code replaces the first occurrence of the
  extension in the whole path: for \<^verbatim>\<open>chart.js/Chart.js\<close>, whose extension is \<^verbatim>\<open>.js\<close>,
  the fingerprint lands in the directory name and not before the final extension.
\<close>

theorem versionedKey_replaces_first_occurrence:
  "Ext ''chart.js/Chart.js'' = ''.js''
   \<and> versionedKey ''chart.js/Chart.js'' ''H'' = ''chart.H.js/Chart.js''
   \<and> versionedKey ''chart.js/Chart.js'' ''H'' \<noteq> ''chart.js/Chart.H.js''"
  by (simp add: versionedKey_def versionable_def GetVersionedFilename_def Ext_def
        Replace_first_def HasPrefix_def)




subsection \<open>Existence check\<close>

lemma HasPreviousUpload_snd:
  "snd (HasPreviousUpload s bucket key) = s\<lparr>requests := requests s @ [HeadObject bucket key]\<rparr>"
  by (simp add: HasPreviousUpload_def HeadObject_Send_def)

lemma HasPreviousUpload_fst:
  "fst (HasPreviousUpload s bucket key)
     = (head_fault s (bucket, key) = None \<and> objects s (bucket, key) \<noteq> None)"
  by (auto simp add: HasPreviousUpload_def HeadObject_Send_def split: option.splits)

text \<open>
  C4. The existence check answers true exactly when the HEAD request succeeds; a
  request that fails, with whatever error, gives false. The result is a boolean, so no
  error reaches the caller; the stored objects are left as they are.
\<close>

theorem HasPreviousUpload_true_iff_head_succeeds:
  "fst (HasPreviousUpload s bucket key)
     = (case fst (HeadObject_Send s bucket key) of None \<Rightarrow> True | Some e \<Rightarrow> False)
   \<and> objects (snd (HasPreviousUpload s bucket key)) = objects s"
  by (simp add: HasPreviousUpload_def HeadObject_Send_def split: option.splits)

theorem HasPreviousUpload_true_iff_head_succeeds_witness:
  "fst (HeadObject_Send (demo_svc\<lparr>head_fault := (\<lambda>k. Some (Err ''RequestError: send request failed''))\<rparr>)
          ''static.buffer.com'' ''v1/logo.png'')
     = Some (Err ''RequestError: send request failed'')
   \<and> \<not> fst (HasPreviousUpload (demo_svc\<lparr>head_fault := (\<lambda>k. Some (Err ''RequestError: send request failed''))\<rparr>)
              ''static.buffer.com'' ''v1/logo.png'')"
  using HasPreviousUpload_true_iff_head_succeeds
    [of "demo_svc\<lparr>head_fault := (\<lambda>k. Some (Err ''RequestError: send request failed''))\<rparr>"
        "''static.buffer.com''" "''v1/logo.png''"]
  by (simp add: HeadObject_Send_def demo_svc_def)

subsection \<open>Manifest formatter\<close>

text \<open>
  C8. For every manifest, a format selector other than \<^verbatim>\<open>json\<close> and \<^verbatim>\<open>csv\<close> gives an
  empty result and no error.
\<close>

theorem FormatManifest_unrecognized_format:
  "format \<noteq> ''json'' \<Longrightarrow> format \<noteq> ''csv'' \<Longrightarrow> FormatManifest X fileVersions format = ([], None)"
  by (simp add: FormatManifest_def)

theorem FormatManifest_unrecognized_format_witness:
  "''xml'' \<noteq> ''json'' \<and> ''xml'' \<noteq> ''csv''
   \<and> FormatManifest demo_extern [(''logo.png'', ''https://static.buffer.com/v1/logo.png'')] ''xml''
       = ([], None)"
  using FormatManifest_unrecognized_format
    [of "''xml''" demo_extern "[(''logo.png'', ''https://static.buffer.com/v1/logo.png'')]"]
  by simp

subsection \<open>One iteration of the upload loop\<close>

lemma GetFileMd5_fresh_regular:
  "GetFileMd5 X \<lparr>opened = Regular content, offset = 0\<rparr>
     = (Inr (fingerprint X content), \<lparr>opened = Regular content, offset = length content\<rparr>)"
  by (simp add: GetFileMd5_def read_to_EOF_def fingerprint_def)

lemma upload_step_no_transfer:
  assumes "processable (fsys w) f"
    and "dry \<or> fst (HasPreviousUpload (svc w) b (object_key X (fsys w) d f))"
  shows "upload_step X b d dry f m w =
           (Inr (AList.update f (file_url X (fsys w) b d f) m),
            w\<lparr>svc := (svc w)\<lparr>requests := requests (svc w) @ [HeadObject b (object_key X (fsys w) d f)]\<rparr>,
              stdout := stdout w @ [outcome_line (if fst (HasPreviousUpload (svc w) b (object_key X (fsys w) d f)) then ''Skipped'' else ''Uploaded'') f]\<rparr>)"
proof (cases "fsys w f")
  case None
  with assms(1) show ?thesis by (simp add: processable_def)
next
  case (Some n)
  show ?thesis
  proof (cases n)
    case (Regular c)
    with Some assms show ?thesis
      by (auto simp add: upload_step_def processable_def os_Open_def GetFileMd5_fresh_regular
            object_key_def file_url_def content_of_def versionedKey_def Let_def split_beta
            HasPreviousUpload_snd print_def)
  next
    case Directory
    with Some assms show ?thesis
      by (auto simp add: upload_step_def processable_def os_Open_def
            object_key_def file_url_def content_of_def versionedKey_def Let_def split_beta
            HasPreviousUpload_snd print_def)
  qed
qed

lemma upload_step_unprocessable:
  assumes "\<not> processable (fsys w) f"
  shows "\<exists>e. upload_step X b d dry f m w = (Inl e, w)"
proof (cases "f = [] \<or> fsys w f = None")
  case True
  then show ?thesis by (auto simp add: upload_step_def os_Open_def)
next
  case False
  with assms have "fsys w f = Some Directory" "versionable f" "f \<noteq> []"
    by (auto simp add: processable_def split: option.splits node.splits)
  then show ?thesis
    by (simp add: upload_step_def os_Open_def GetFileMd5_def read_to_EOF_def)
qed

lemma upload_step_Inr:
  assumes "upload_step X b d dry f m w = (Inr m', w')"
  shows "processable (fsys w) f \<and> m' = AList.update f (file_url X (fsys w) b d f) m"
proof -
  have p: "processable (fsys w) f"
    using assms upload_step_unprocessable [of w f X b d dry m] by auto
  show ?thesis
  proof (cases "fsys w f")
    case None
    with p show ?thesis by (simp add: processable_def)
  next
    case (Some n)
    with p assms show ?thesis
      by (cases n) (auto simp add: upload_step_def processable_def os_Open_def GetFileMd5_fresh_regular
            object_key_def file_url_def content_of_def versionedKey_def Let_def split_beta
            split: option.splits if_splits)
  qed
qed

lemma upload_step_frame:
  assumes "upload_step X b d dry f m w = (r, w')"
  shows "fsys w' = fsys w \<and> write_fault w' = write_fault w \<and> getenv w' = getenv w
         \<and> head_fault (svc w') = head_fault (svc w) \<and> put_fault (svc w') = put_fault (svc w)"
  using assms
  by (auto simp add: upload_step_def Let_def split_beta print_def HasPreviousUpload_snd UploadFile_def Upload_def
        split: sum.splits option.splits if_splits prod.splits)

text \<open>
  What an upload is handed: the handle of a file that was fingerprinted is at the end of
  the file, the handle of any other file at its beginning. The bytes that the uploader
  sends for that handle are the bytes of the request and of the stored object.
\<close>

lemma upload_step_transfer:
  assumes "fsys w f = Some (Regular content)" and "f \<noteq> []"
    and "\<not> fst (HasPreviousUpload (svc w) b (object_key X (fsys w) d f))"
    and "put_fault (svc w) (b, object_key X (fsys w) d f) = None"
    and "sent_of_Body X \<lparr>opened = Regular content,
                          offset = (if versionable f then length content else 0)\<rparr> = Inr sent"
  shows "\<exists>m' w'. upload_step X b d False f m w = (Inr m', w')
           \<and> requests (svc w') = requests (svc w)
                @ [HeadObject b (object_key X (fsys w) d f),
                   PutObject b (object_key X (fsys w) d f) sent]
           \<and> map_option body (objects (svc w') (b, object_key X (fsys w) d f)) = Some sent"
proof (cases "versionable f")
  case True
  with assms show ?thesis
    by (simp add: upload_step_def os_Open_def GetFileMd5_fresh_regular
          object_key_def content_of_def versionedKey_def Let_def split_beta
          HasPreviousUpload_snd print_def UploadFile_def Upload_def)
next
  case False
  with assms show ?thesis
    by (simp add: upload_step_def os_Open_def
          object_key_def content_of_def versionedKey_def Let_def split_beta
          HasPreviousUpload_snd print_def UploadFile_def Upload_def)
qed

subsection \<open>The upload loop\<close>

lemma map_of_entries:
  "map_of (entries X fs b d fns m) k
     = (if k \<in> set fns then Some (file_url X fs b d k) else map_of m k)"
  by (induction fns arbitrary: m) (simp_all add: entries_def update_conv')

lemma distinct_entries:
  "distinct (map fst m) \<Longrightarrow> distinct (map fst (entries X fs b d fns m))"
  by (induction fns arbitrary: m) (simp_all add: entries_def distinct_update)

lemma keys_entries:
  "fst ` set (entries X fs b d fns m) = set fns \<union> fst ` set m"
  by (induction fns arbitrary: m) (auto simp add: entries_def dom_update)

lemma upload_loop_success:
  "upload_loop X b d dry fns m w = ((m', None), w') \<Longrightarrow>
     list_all (processable (fsys w)) fns \<and> m' = entries X (fsys w) b d fns m \<and> fsys w' = fsys w"
proof (induction fns arbitrary: m w)
  case Nil
  then show ?case by (simp add: entries_def)
next
  case (Cons f fns)
  obtain r w1 where step: "upload_step X b d dry f m w = (r, w1)"
    by (cases "upload_step X b d dry f m w")
  show ?case
  proof (cases r)
    case (Inl e)
    with step Cons.prems show ?thesis by simp
  next
    case (Inr m1)
    with step Cons.prems have loop: "upload_loop X b d dry fns m1 w1 = ((m', None), w')"
      by simp
    from step Inr have s: "processable (fsys w) f" "m1 = AList.update f (file_url X (fsys w) b d f) m"
      using upload_step_Inr by blast+
    from step have fr: "fsys w1 = fsys w"
      using upload_step_frame by blast
    from Cons.IH [OF loop] fr s show ?thesis
      by (simp add: entries_def)
  qed
qed

lemma upload_loop_no_transfer:
  assumes "dry \<or> (\<forall>f \<in> set fns. fst (HasPreviousUpload (svc w) b (object_key X (fsys w) d f)))"
  shows "\<exists>r. upload_loop X b d dry fns m w =
           ((entries X (fsys w) b d (processed (fsys w) fns) m, r),
            w\<lparr>svc := (svc w)\<lparr>requests := requests (svc w) @ head_requests X (fsys w) b d (processed (fsys w) fns)\<rparr>,
              stdout := stdout w @ outcome_lines X w b d (processed (fsys w) fns)\<rparr>)
         \<and> (r = None \<longleftrightarrow> list_all (processable (fsys w)) fns)"
  using assms
proof (induction fns arbitrary: m w)
  case Nil
  then show ?case
    by (simp add: entries_def processed_def head_requests_def outcome_lines_def)
next
  case (Cons f fns)
  show ?case
  proof (cases "processable (fsys w) f")
    case False
    then obtain e where "upload_step X b d dry f m w = (Inl e, w)"
      using upload_step_unprocessable by blast
    with False show ?thesis
      by (simp add: entries_def processed_def head_requests_def outcome_lines_def)
  next
    case True
    let ?key = "object_key X (fsys w) d f"
    let ?w1 = "w\<lparr>svc := (svc w)\<lparr>requests := requests (svc w) @ [HeadObject b ?key]\<rparr>,
              stdout := stdout w @ [outcome_line (if fst (HasPreviousUpload (svc w) b ?key) then ''Skipped'' else ''Uploaded'') f]\<rparr>"
    from Cons.prems have c: "dry \<or> fst (HasPreviousUpload (svc w) b ?key)"
      by auto
    have step: "upload_step X b d dry f m w = (Inr (AList.update f (file_url X (fsys w) b d f) m), ?w1)"
      using upload_step_no_transfer [OF True c] .
    from Cons.prems have p: "dry \<or> (\<forall>f \<in> set fns. fst (HasPreviousUpload (svc ?w1) b (object_key X (fsys ?w1) d f)))"
      by (auto simp add: HasPreviousUpload_fst)
    from Cons.IH [OF p, of "AList.update f (file_url X (fsys w) b d f) m"]
    obtain r where
      loop: "upload_loop X b d dry fns (AList.update f (file_url X (fsys w) b d f) m) ?w1 =
           ((entries X (fsys ?w1) b d (processed (fsys ?w1) fns) (AList.update f (file_url X (fsys w) b d f) m), r),
            ?w1\<lparr>svc := (svc ?w1)\<lparr>requests := requests (svc ?w1) @ head_requests X (fsys ?w1) b d (processed (fsys ?w1) fns)\<rparr>,
              stdout := stdout ?w1 @ outcome_lines X ?w1 b d (processed (fsys ?w1) fns)\<rparr>)"
      and r: "r = None \<longleftrightarrow> list_all (processable (fsys ?w1)) fns"
      by blast
    have ol: "outcome_lines X ?w1 b d fs' = outcome_lines X w b d fs'" for fs'
      by (simp add: outcome_lines_def HasPreviousUpload_fst)
    from step loop r True show ?thesis
      by (simp add: entries_def processed_def head_requests_def ol) (simp add: outcome_lines_def)
  qed
qed

lemma processed_all: "(processed fs fns = fns) = list_all (processable fs) fns"
  by (simp add: processed_def takeWhile_eq_all_conv list_all_iff)

lemma outcome_lines_print:
  "outcome_lines X (print line w) b d fns = outcome_lines X w b d fns"
  by (simp add: outcome_lines_def print_def)

lemma VersionAndUploadFiles_no_transfer:
  assumes "dry \<or> (\<forall>f \<in> set fns. fst (HasPreviousUpload (svc w) b (object_key X (fsys w) d f)))"
  shows "\<exists>r. VersionAndUploadFiles X b d fns dry w =
           ((entries X (fsys w) b d (processed (fsys w) fns) [], r),
            w\<lparr>svc := (svc w)\<lparr>requests := requests (svc w) @ head_requests X (fsys w) b d (processed (fsys w) fns)\<rparr>,
              stdout := stdout w @ [''Uploading to '' @ b @ ''/'' @ d @ [CHR 0x0A]]
                          @ outcome_lines X w b d (processed (fsys w) fns)\<rparr>)
         \<and> (r = None \<longleftrightarrow> processed (fsys w) fns = fns)"
proof -
  let ?w0 = "print (''Uploading to '' @ b @ ''/'' @ d @ [CHR 0x0A]) w"
  from assms have "dry \<or> (\<forall>f \<in> set fns. fst (HasPreviousUpload (svc ?w0) b (object_key X (fsys ?w0) d f)))"
    by (simp add: print_def)
  from upload_loop_no_transfer [OF this, of "[]"] show ?thesis
    by (auto simp add: VersionAndUploadFiles_def processed_all outcome_lines_print) (auto simp add: print_def)
qed

lemma VersionAndUploadFiles_success:
  assumes "VersionAndUploadFiles X b d fns dry w = ((m, None), w')"
  shows "list_all (processable (fsys w)) fns \<and> m = entries X (fsys w) b d fns [] \<and> fsys w' = fsys w"
proof -
  let ?w0 = "print (''Uploading to '' @ b @ ''/'' @ d @ [CHR 0x0A]) w"
  from assms have "upload_loop X b d dry fns [] ?w0 = ((m, None), w')"
    by (simp add: VersionAndUploadFiles_def)
  from upload_loop_success [OF this] show ?thesis
    by (simp add: print_def)
qed

lemma upload_step_publishes:
  assumes "upload_step X b d False f m w = (Inr m', w')"
  shows "objects (svc w') (b, object_key X (fsys w) d f) \<noteq> None
         \<and> (\<forall>k. objects (svc w) k \<noteq> None \<longrightarrow> objects (svc w') k \<noteq> None)"
proof (cases "fst (HasPreviousUpload (svc w) b (object_key X (fsys w) d f))")
  case True
  from assms have "processable (fsys w) f"
    using upload_step_Inr by blast
  from upload_step_no_transfer [OF this, of False b X d m] True assms
  show ?thesis
    by (auto simp add: HasPreviousUpload_fst)
next
  case False
  from assms have p: "processable (fsys w) f"
    using upload_step_Inr by blast
  show ?thesis
  proof (cases "fsys w f")
    case None
    with p show ?thesis by (simp add: processable_def)
  next
    case (Some n)
    show ?thesis
    proof (cases n)
      case Directory
      with Some p False assms show ?thesis
        by (auto simp add: upload_step_def processable_def os_Open_def object_key_def content_of_def
              versionedKey_def Let_def split_beta UploadFile_def Upload_def
              HasPreviousUpload_snd print_def
              split: sum.splits option.splits if_splits)
    next
      case (Regular c)
      with Some p False assms show ?thesis
        by (cases "versionable f")
          (auto simp add: upload_step_def processable_def os_Open_def object_key_def content_of_def
              versionedKey_def Let_def split_beta UploadFile_def Upload_def
              GetFileMd5_fresh_regular HasPreviousUpload_snd print_def
              split: sum.splits option.splits if_splits)
    qed
  qed
qed

lemma upload_loop_publishes:
  "upload_loop X b d False fns m w = ((m', None), w') \<Longrightarrow>
     (\<forall>f \<in> set fns. objects (svc w') (b, object_key X (fsys w) d f) \<noteq> None)
     \<and> (\<forall>k. objects (svc w) k \<noteq> None \<longrightarrow> objects (svc w') k \<noteq> None)"
proof (induction fns arbitrary: m w)
  case Nil
  then show ?case by simp
next
  case (Cons f fns)
  obtain r w1 where step: "upload_step X b d False f m w = (r, w1)"
    by (cases "upload_step X b d False f m w")
  show ?case
  proof (cases r)
    case (Inl e)
    with step Cons.prems show ?thesis by simp
  next
    case (Inr m1)
    with step Cons.prems have loop: "upload_loop X b d False fns m1 w1 = ((m', None), w')"
      by simp
    from step Inr have pub: "objects (svc w1) (b, object_key X (fsys w) d f) \<noteq> None"
      and mono: "\<forall>k. objects (svc w) k \<noteq> None \<longrightarrow> objects (svc w1) k \<noteq> None"
      using upload_step_publishes by blast+
    from step have fr: "fsys w1 = fsys w"
      using upload_step_frame by blast
    from Cons.IH [OF loop] fr pub mono show ?thesis
      by simp
  qed
qed

text \<open>
  After a run that uploads and succeeds, an object is stored under the key of every
  file of the list: the check answers true for each of them as long as the HEAD
  request itself does not fail.
\<close>

lemma VersionAndUploadFiles_publishes:
  assumes "VersionAndUploadFiles X b d fns False w = ((m, None), w')"
  shows "\<forall>f \<in> set fns. objects (svc w') (b, object_key X (fsys w) d f) \<noteq> None"
proof -
  let ?w0 = "print (''Uploading to '' @ b @ ''/'' @ d @ [CHR 0x0A]) w"
  from assms have "upload_loop X b d False fns [] ?w0 = ((m, None), w')"
    by (simp add: VersionAndUploadFiles_def)
  from upload_loop_publishes [OF this] show ?thesis
    by (simp add: print_def)
qed

subsection \<open>Manifest\<close>

text \<open>
  C5. On a successful run the manifest has exactly one entry per input file name: its
  keys are distinct, they are the input file names, and each file name is mapped to the
  URL resolved for it. This holds whatever the outcome of each file was and whether or
  not the run was a dry run.
\<close>

theorem manifest_one_entry_per_file:
  assumes "VersionAndUploadFiles X bucket dir filenames dryRun w = ((m, None), w')"
  shows "distinct (map fst m) \<and> fst ` set m = set filenames \<and> length m = card (set filenames)
         \<and> (\<forall>f \<in> set filenames. map_of m f = Some (file_url X (fsys w) bucket dir f))"
proof -
  from assms have m: "m = entries X (fsys w) bucket dir filenames []"
    using VersionAndUploadFiles_success by blast
  have d: "distinct (map fst m)"
    unfolding m by (rule distinct_entries) simp
  have k: "fst ` set m = set filenames"
    unfolding m by (simp add: keys_entries)
  have "card (fst ` set m) = length m"
    using distinct_card [OF d] by simp
  with k have l: "length m = card (set filenames)"
    by simp
  from d k l show ?thesis
    unfolding m by (simp add: map_of_entries)
qed

theorem manifest_one_entry_per_file_witness:
  "snd (fst (VersionAndUploadFiles demo_extern ''static.buffer.com'' ''v1''
               [''app.js'', ''logo.png'', ''app.js''] True demo_world)) = None
   \<and> map fst (fst (fst (VersionAndUploadFiles demo_extern ''static.buffer.com'' ''v1''
               [''app.js'', ''logo.png'', ''app.js''] True demo_world))) = [''app.js'', ''logo.png'']
   \<and> length (fst (fst (VersionAndUploadFiles demo_extern ''static.buffer.com'' ''v1''
               [''app.js'', ''logo.png'', ''app.js''] True demo_world)))
        = card (set [''app.js'', ''logo.png'', ''app.js''])"
proof -
  let ?R = "VersionAndUploadFiles demo_extern ''static.buffer.com'' ''v1''
               [''app.js'', ''logo.png'', ''app.js''] True demo_world"
  have ok: "snd (fst ?R) = None"
    by code_simp
  then have run: "?R = ((fst (fst ?R), None), snd ?R)"
    by (metis prod.collapse)
  have keys: "map fst (fst (fst ?R)) = [''app.js'', ''logo.png'']"
    by code_simp
  from manifest_one_entry_per_file [OF run] ok keys show ?thesis
    by blast
qed

subsection \<open>Skipping what is already there\<close>

text \<open>
  C3. If the existence check reports the key of a file as present, the iteration for
  that file sends the HEAD request only, stores nothing and prints \<^verbatim>\<open>Skipped\<close>.
  Consequently a run over a file list that an earlier run completed, on the same files
  and against a bucket where the check answers true for every key, returns the manifest
  of the earlier run, sends HEAD requests only and prints \<^verbatim>\<open>Skipped\<close> for every file.
\<close>

theorem existing_key_is_skipped:
  "(fst (HasPreviousUpload (svc w) bucket (object_key X (fsys w) dir f)) \<longrightarrow>
      (if processable (fsys w) f
       then upload_step X bucket dir dryRun f m0 w =
              (Inr (AList.update f (file_url X (fsys w) bucket dir f) m0),
               w\<lparr>svc := (svc w)\<lparr>requests := requests (svc w)
                                  @ [HeadObject bucket (object_key X (fsys w) dir f)]\<rparr>,
                 stdout := stdout w @ [outcome_line ''Skipped'' f]\<rparr>)
       else snd (upload_step X bucket dir dryRun f m0 w) = w))
   \<and> (VersionAndUploadFiles X bucket dir filenames dryRun1 w1 = ((m, None), w1')
        \<and> fsys w2 = fsys w1
        \<and> (\<forall>f \<in> set filenames.
              fst (HasPreviousUpload (svc w2) bucket (object_key X (fsys w2) dir f))) \<longrightarrow>
      VersionAndUploadFiles X bucket dir filenames dryRun2 w2 =
        ((m, None),
         w2\<lparr>svc := (svc w2)\<lparr>requests := requests (svc w2)
                               @ head_requests X (fsys w2) bucket dir filenames\<rparr>,
            stdout := stdout w2 @ [''Uploading to '' @ bucket @ ''/'' @ dir @ [CHR 0x0A]]
                        @ map (outcome_line ''Skipped'') filenames\<rparr>))"
proof (intro conjI impI)
  assume ex: "fst (HasPreviousUpload (svc w) bucket (object_key X (fsys w) dir f))"
  show "if processable (fsys w) f
       then upload_step X bucket dir dryRun f m0 w =
              (Inr (AList.update f (file_url X (fsys w) bucket dir f) m0),
               w\<lparr>svc := (svc w)\<lparr>requests := requests (svc w)
                                  @ [HeadObject bucket (object_key X (fsys w) dir f)]\<rparr>,
                 stdout := stdout w @ [outcome_line ''Skipped'' f]\<rparr>)
       else snd (upload_step X bucket dir dryRun f m0 w) = w"
  proof (cases "processable (fsys w) f")
    case True
    with upload_step_no_transfer [OF True, of dryRun bucket X dir m0] ex show ?thesis
      by simp
  next
    case False
    with upload_step_unprocessable [OF False, of X bucket dir dryRun m0] show ?thesis
      by auto
  qed
next
  assume a: "VersionAndUploadFiles X bucket dir filenames dryRun1 w1 = ((m, None), w1')
        \<and> fsys w2 = fsys w1
        \<and> (\<forall>f \<in> set filenames.
              fst (HasPreviousUpload (svc w2) bucket (object_key X (fsys w2) dir f)))"
  from a have run1: "VersionAndUploadFiles X bucket dir filenames dryRun1 w1 = ((m, None), w1')"
    by blast
  from a have same: "fsys w1 = fsys w2"
    by simp
  from a have ex: "\<forall>f \<in> set filenames.
              fst (HasPreviousUpload (svc w2) bucket (object_key X (fsys w2) dir f))"
    by blast
  from VersionAndUploadFiles_success [OF run1]
  have first: "list_all (processable (fsys w2)) filenames"
    and m: "m = entries X (fsys w2) bucket dir filenames []"
    unfolding same by simp_all
  from first have all: "processed (fsys w2) filenames = filenames"
    by (simp add: processed_all)
  from ex have lines: "outcome_lines X w2 bucket dir filenames = map (outcome_line ''Skipped'') filenames"
    by (simp add: outcome_lines_def)
  from ex have ex: "dryRun2 \<or> (\<forall>f \<in> set filenames.
              fst (HasPreviousUpload (svc w2) bucket (object_key X (fsys w2) dir f)))"
    by blast
  from VersionAndUploadFiles_no_transfer [OF ex] all m lines
  show "VersionAndUploadFiles X bucket dir filenames dryRun2 w2 =
        ((m, None),
         w2\<lparr>svc := (svc w2)\<lparr>requests := requests (svc w2)
                               @ head_requests X (fsys w2) bucket dir filenames\<rparr>,
            stdout := stdout w2 @ [''Uploading to '' @ bucket @ ''/'' @ dir @ [CHR 0x0A]]
                        @ map (outcome_line ''Skipped'') filenames\<rparr>)"
    by auto
qed

theorem existing_key_is_skipped_witness:
  "fst (HasPreviousUpload (svc demo_published) ''static.buffer.com''
          (object_key demo_extern (fsys demo_published) ''v1'' ''app.js''))
   \<and> processable (fsys demo_published) ''app.js''
   \<and> snd (fst (VersionAndUploadFiles demo_extern ''static.buffer.com'' ''v1''
                 [''app.js'', ''logo.png''] False demo_world)) = None
   \<and> fst (VersionAndUploadFiles demo_extern ''static.buffer.com'' ''v1''
            [''app.js'', ''logo.png''] False demo_published)
       = (fst (fst (VersionAndUploadFiles demo_extern ''static.buffer.com'' ''v1''
                      [''app.js'', ''logo.png''] False demo_world)), None)
   \<and> objects (svc (snd (VersionAndUploadFiles demo_extern ''static.buffer.com'' ''v1''
            [''app.js'', ''logo.png''] False demo_published))) = objects (svc demo_published)
   \<and> stdout (snd (upload_step demo_extern ''static.buffer.com'' ''v1'' False ''app.js'' []
                     demo_published)) = [''Skipped    app.js'' @ [CHR 0x0A]]"
proof -
  let ?R = "VersionAndUploadFiles demo_extern ''static.buffer.com'' ''v1''
              [''app.js'', ''logo.png''] False demo_world"
  have ex1: "fst (HasPreviousUpload (svc demo_published) ''static.buffer.com''
          (object_key demo_extern (fsys demo_published) ''v1'' ''app.js''))"
    by code_simp
  have p: "processable (fsys demo_published) ''app.js''"
    by code_simp
  have ok: "snd (fst ?R) = None"
    by code_simp
  then have run: "?R = ((fst (fst ?R), None), snd ?R)"
    by (metis prod.collapse)
  have same: "fsys demo_published = fsys demo_world"
    by (simp add: demo_published_def)
  have ex: "\<forall>f \<in> set [''app.js'', ''logo.png''].
              fst (HasPreviousUpload (svc demo_published) ''static.buffer.com''
                     (object_key demo_extern (fsys demo_published) ''v1'' f))"
    by code_simp
  have so: "stdout demo_published = []"
    by (simp add: demo_published_def demo_world_def)
  have ol: "outcome_line ''Skipped'' ''app.js'' = ''Skipped    app.js'' @ [CHR 0x0A]"
    by code_simp
  from existing_key_is_skipped
    [of demo_published "''static.buffer.com''" demo_extern "''v1''" "''app.js''" False "[]"
        "[''app.js'', ''logo.png'']" False demo_world "fst (fst ?R)" "snd ?R" demo_published False]
    ex1 p ok run same ex so ol
  show ?thesis
    by simp
qed

subsection \<open>The command\<close>

lemma fatal_prints: "\<exists>line. fatal fmt a w = (1, print line w)"
proof (cases a)
  case None
  then have "fatal fmt a w = (1, print (''Error: '' @ fmt @ [CHR 0x0A]) w)"
    by (simp add: fatal_def)
  then show ?thesis by blast
next
  case (Some e)
  obtain msg where "e = Err msg"
    by (cases e)
  with Some have "fatal fmt a w
      = (1, print (Replace_first (''Error: '' @ fmt @ [CHR 0x0A]) ''%s'' (''['' @ msg @ '']'')) w)"
    by (simp add: fatal_def)
  then show ?thesis by blast
qed

lemma fatal_frame:
  "fsys (snd (fatal fmt a w)) = fsys w" "svc (snd (fatal fmt a w)) = svc w"
  "fst (fatal fmt a w) = 1"
  using fatal_prints [of fmt a w] by (auto simp add: print_def)

lemma filter_put_head_requests: "filter is_put (head_requests X fs b d fns) = []"
  by (induction fns) (simp_all add: head_requests_def is_put_def)

lemma VersionAndUploadFiles_dry_frame:
  assumes "VersionAndUploadFiles X b d fns True w = (res, w')"
  shows "fsys w' = fsys w \<and> objects (svc w') = objects (svc w)
         \<and> filter is_put (requests (svc w')) = filter is_put (requests (svc w))"
proof -
  have "True \<or> (\<forall>f \<in> set fns. fst (HasPreviousUpload (svc w) b (object_key X (fsys w) d f)))"
    by simp
  from VersionAndUploadFiles_no_transfer [OF this] assms show ?thesis
    by (auto simp add: filter_put_head_requests)
qed

lemma main_run_dry_frame:
  assumes "flag_dry_run fl"
  shows "fsys (snd (main_run X fl w)) = fsys w
         \<and> objects (svc (snd (main_run X fl w))) = objects (svc w)
         \<and> filter is_put (requests (svc (snd (main_run X fl w)))) = filter is_put (requests (svc w))"
proof -
  obtain files gerr where g: "GetFilesFromGlobsList X (fsys w) (flag_files fl) = (files, gerr)"
    by (cases "GetFilesFromGlobsList X (fsys w) (flag_files fl)")
  let ?w1 = "print (''Found '' @ itoa (length files) @ '' files to upload and version:'' @ [CHR 0x0A]) w"
  let ?V = "VersionAndUploadFiles X (flag_bucket fl) (flag_dir fl) files True ?w1"
  obtain res w2 where v0: "?V = (res, w2)"
    by (cases ?V)
  obtain m r where res: "res = (m, r)"
    by (cases res)
  from v0 res have v: "?V = ((m, r), w2)"
    by simp
  from VersionAndUploadFiles_dry_frame [OF v]
  have fr: "fsys w2 = fsys w" "objects (svc w2) = objects (svc w)"
    "filter is_put (requests (svc w2)) = filter is_put (requests (svc w))"
    by (simp_all add: print_def)
  obtain out ferr where f: "FormatManifest X m (flag_format fl) = (out, ferr)"
    by (cases "FormatManifest X m (flag_format fl)")
  show ?thesis
  proof (cases gerr)
    case (Some e)
    with g show ?thesis
      by (simp add: main_run_def fatal_frame)
  next
    case None
    note noglob = this
    show ?thesis
    proof (cases "SetupS3Uploader ?w1")
      case (Some e)
      with g noglob show ?thesis
        by (simp add: main_run_def fatal_frame) (simp add: print_def)
    next
      case None
      note creds = this
      show ?thesis
      proof (cases r)
        case (Some e)
        with g noglob creds v assms fr show ?thesis
          by (simp add: main_run_def fatal_frame)
      next
        case None
        with g noglob creds v assms fr f show ?thesis
          by (cases ferr) (simp_all add: main_run_def fatal_frame, simp add: print_def)
      qed
    qed
  qed
qed

text \<open>
  C9. In dry-run mode the command leaves the local files and the stored objects as they
  are and sends no upload request, whatever the file list and however the run ends.
  The orchestrator still sends one HEAD request and prints one outcome line for every file
  it reaches, that is for every file of the list unless one of them cannot be opened or
  fingerprinted, which ends the run with an error at that file.
\<close>

theorem dry_run_transfers_and_writes_nothing:
  "(flag_dry_run fl \<longrightarrow>
      fsys (snd (main X fl w)) = fsys w
      \<and> objects (svc (snd (main X fl w))) = objects (svc w)
      \<and> filter is_put (requests (svc (snd (main X fl w)))) = filter is_put (requests (svc w)))
   \<and> (\<exists>r. VersionAndUploadFiles X bucket dir filenames True w =
          ((entries X (fsys w) bucket dir (processed (fsys w) filenames) [], r),
           w\<lparr>svc := (svc w)\<lparr>requests := requests (svc w)
                  @ head_requests X (fsys w) bucket dir (processed (fsys w) filenames)\<rparr>,
             stdout := stdout w @ [''Uploading to '' @ bucket @ ''/'' @ dir @ [CHR 0x0A]]
                  @ outcome_lines X w bucket dir (processed (fsys w) filenames)\<rparr>)
        \<and> (r = None \<longleftrightarrow> processed (fsys w) filenames = filenames))"
proof (intro conjI impI)
  assume dry: "flag_dry_run fl"
  have "fsys (snd (main X fl w)) = fsys w
      \<and> objects (svc (snd (main X fl w))) = objects (svc w)
      \<and> filter is_put (requests (svc (snd (main X fl w)))) = filter is_put (requests (svc w))"
    using main_run_dry_frame [OF dry, of X w]
    by (simp add: main_def fatal_def print_def)
  then show "fsys (snd (main X fl w)) = fsys w"
    and "objects (svc (snd (main X fl w))) = objects (svc w)"
    and "filter is_put (requests (svc (snd (main X fl w)))) = filter is_put (requests (svc w))"
    by simp_all
next
  have "True \<or> (\<forall>f \<in> set filenames.
          fst (HasPreviousUpload (svc w) bucket (object_key X (fsys w) dir f)))"
    by simp
  from VersionAndUploadFiles_no_transfer [OF this]
  show "\<exists>r. VersionAndUploadFiles X bucket dir filenames True w =
          ((entries X (fsys w) bucket dir (processed (fsys w) filenames) [], r),
           w\<lparr>svc := (svc w)\<lparr>requests := requests (svc w)
                  @ head_requests X (fsys w) bucket dir (processed (fsys w) filenames)\<rparr>,
             stdout := stdout w @ [''Uploading to '' @ bucket @ ''/'' @ dir @ [CHR 0x0A]]
                  @ outcome_lines X w bucket dir (processed (fsys w) filenames)\<rparr>)
        \<and> (r = None \<longleftrightarrow> processed (fsys w) filenames = filenames)" .
qed

theorem dry_run_transfers_and_writes_nothing_witness:
  "flag_dry_run (demo_flags\<lparr>flag_dry_run := True\<rparr>)
   \<and> fst (main demo_extern (demo_flags\<lparr>flag_dry_run := True\<rparr>) demo_world) = 0
   \<and> fsys (snd (main demo_extern (demo_flags\<lparr>flag_dry_run := True\<rparr>) demo_world)) = fsys demo_world
   \<and> objects (svc (snd (main demo_extern (demo_flags\<lparr>flag_dry_run := True\<rparr>) demo_world)))
       = objects (svc demo_world)
   \<and> requests (svc (snd (main demo_extern (demo_flags\<lparr>flag_dry_run := True\<rparr>) demo_world)))
       = [HeadObject ''static.buffer.com'' ''v1/app.4a4a4a4a4a4a4a4a4a4a4a4a4a4a4a4a.js'',
          HeadObject ''static.buffer.com'' ''v1/logo.png'']
   \<and> stdout (snd (VersionAndUploadFiles demo_extern ''static.buffer.com'' ''v1''
                    [''app.js'', ''logo.png''] True demo_world))
       = [''Uploading to static.buffer.com/v1'' @ [CHR 0x0A],
          ''Uploaded   app.js'' @ [CHR 0x0A], ''Uploaded   logo.png'' @ [CHR 0x0A]]"
proof -
  let ?fl = "demo_flags\<lparr>flag_dry_run := True\<rparr>"
  have dry: "flag_dry_run ?fl"
    by simp
  have st: "fst (main demo_extern ?fl demo_world) = 0"
    by code_simp
  have rq: "requests (svc (snd (main demo_extern ?fl demo_world)))
       = [HeadObject ''static.buffer.com'' ''v1/app.4a4a4a4a4a4a4a4a4a4a4a4a4a4a4a4a.js'',
          HeadObject ''static.buffer.com'' ''v1/logo.png'']"
    by code_simp
  have pr: "processed (fsys demo_world) [''app.js'', ''logo.png''] = [''app.js'', ''logo.png'']"
    by code_simp
  have ol: "outcome_lines demo_extern demo_world ''static.buffer.com'' ''v1'' [''app.js'', ''logo.png'']
              = [''Uploaded   app.js'' @ [CHR 0x0A], ''Uploaded   logo.png'' @ [CHR 0x0A]]"
    by code_simp
  have so: "stdout demo_world = []"
    by (simp add: demo_world_def)
  from dry_run_transfers_and_writes_nothing
    [of ?fl demo_extern demo_world "''static.buffer.com''" "''v1''" "[''app.js'', ''logo.png'']"]
    dry st rq pr ol so
  show ?thesis
    by auto
qed

lemma GetFilesFromGlobsList_empty: "GetFilesFromGlobsList X fs [] = ([], None)"
  by (simp add: GetFilesFromGlobsList_def Glob_def hasMeta_def os_Lstat_def)

lemma VersionAndUploadFiles_no_files:
  "VersionAndUploadFiles X b d [] dry w
     = (([], None), print (''Uploading to '' @ b @ ''/'' @ d @ [CHR 0x0A]) w)"
  by (simp add: VersionAndUploadFiles_def)

text \<open>
  C10. The glob expansion of the empty string is the empty file list and no error, and
  the orchestrator on the empty list returns the empty manifest and no error. So a command
  line without files argument, which passes the check of the flags, finds credentials and
  can format and write its manifest, exits with status 0, sends no request and writes the
  empty manifest in the chosen format (nothing in a dry run).
\<close>

theorem omitted_files_argument:
  "GetFilesFromGlobsList X fs [] = ([], None)
   \<and> VersionAndUploadFiles X bucket dir [] dryRun w0
       = (([], None), print (''Uploading to '' @ bucket @ ''/'' @ dir @ [CHR 0x0A]) w0)
   \<and> (flag_files fl = [] \<and> \<not> flag_v fl
        \<and> \<not> (flag_dir fl = [] \<and> flag_bucket fl = defaultS3Bucket)
        \<and> getenv w ''AWS_ACCESS_KEY_ID'' \<noteq> [] \<and> getenv w ''AWS_SECRET_ACCESS_KEY'' \<noteq> []
        \<and> snd (FormatManifest X [] (flag_format fl)) = None
        \<and> (flag_dry_run fl \<or> write_fault w (flag_o fl) = None) \<longrightarrow>
      fst (main X fl w) = 0
      \<and> svc (snd (main X fl w)) = svc w
      \<and> fsys (snd (main X fl w))
           = (if flag_dry_run fl then fsys w
              else (fsys w)(flag_o fl \<mapsto> Regular (fst (FormatManifest X [] (flag_format fl))))))"
proof (intro conjI impI)
  show "GetFilesFromGlobsList X fs [] = ([], None)"
    by (rule GetFilesFromGlobsList_empty)
  show "VersionAndUploadFiles X bucket dir [] dryRun w0
       = (([], None), print (''Uploading to '' @ bucket @ ''/'' @ dir @ [CHR 0x0A]) w0)"
    by (rule VersionAndUploadFiles_no_files)
next
  assume a: "flag_files fl = [] \<and> \<not> flag_v fl
        \<and> \<not> (flag_dir fl = [] \<and> flag_bucket fl = defaultS3Bucket)
        \<and> getenv w ''AWS_ACCESS_KEY_ID'' \<noteq> [] \<and> getenv w ''AWS_SECRET_ACCESS_KEY'' \<noteq> []
        \<and> snd (FormatManifest X [] (flag_format fl)) = None
        \<and> (flag_dry_run fl \<or> write_fault w (flag_o fl) = None)"
  obtain out where f: "FormatManifest X [] (flag_format fl) = (out, None)"
    using a by (cases "FormatManifest X [] (flag_format fl)") simp
  have m: "main X fl w = main_run X fl w"
    using a by (auto simp add: main_def)
  have r: "fst (main_run X fl w) = 0 \<and> svc (snd (main_run X fl w)) = svc w
      \<and> fsys (snd (main_run X fl w)) = (if flag_dry_run fl then fsys w else (fsys w)(flag_o fl \<mapsto> Regular out))"
    using a f
    by (auto simp add: main_run_def GetFilesFromGlobsList_empty VersionAndUploadFiles_no_files
          SetupS3Uploader_def WriteFile_def print_def)
  from m r f show "fst (main X fl w) = 0" and "svc (snd (main X fl w)) = svc w"
    and "fsys (snd (main X fl w))
           = (if flag_dry_run fl then fsys w
              else (fsys w)(flag_o fl \<mapsto> Regular (fst (FormatManifest X [] (flag_format fl)))))"
    by simp_all
qed

theorem omitted_files_argument_witness:
  "flag_files other_bucket_flags = []
   \<and> fst (main demo_extern other_bucket_flags demo_world) = 0
   \<and> svc (snd (main demo_extern other_bucket_flags demo_world)) = svc demo_world
   \<and> fsys (snd (main demo_extern other_bucket_flags demo_world)) ''staticAssets.json''
       = Some (Regular ''{}'')"
proof -
  have h: "flag_files other_bucket_flags = [] \<and> \<not> flag_v other_bucket_flags
        \<and> \<not> (flag_dir other_bucket_flags = [] \<and> flag_bucket other_bucket_flags = defaultS3Bucket)
        \<and> getenv demo_world ''AWS_ACCESS_KEY_ID'' \<noteq> []
        \<and> getenv demo_world ''AWS_SECRET_ACCESS_KEY'' \<noteq> []
        \<and> snd (FormatManifest demo_extern [] (flag_format other_bucket_flags)) = None
        \<and> (flag_dry_run other_bucket_flags \<or> write_fault demo_world (flag_o other_bucket_flags) = None)"
    by code_simp
  have o: "\<not> flag_dry_run other_bucket_flags" "flag_o other_bucket_flags = ''staticAssets.json''"
    "fst (FormatManifest demo_extern [] (flag_format other_bucket_flags)) = ''{}''"
    by code_simp+
  from omitted_files_argument [of demo_extern _ _ _ _ _ other_bucket_flags demo_world] h o
  show ?thesis
    by simp
qed

text \<open>
  C7. Claimed: with an empty directory argument the command stops with a configuration
  error unless the bucket is the default one. The check is the other way round: without
  a directory the command runs to the end on another bucket, and stops on the default
  bucket.
\<close>

theorem directory_is_optional_for_other_buckets:
  "flag_dir other_bucket_flags = [] \<and> flag_bucket other_bucket_flags \<noteq> defaultS3Bucket
   \<and> \<not> flag_v other_bucket_flags
   \<and> fst (main demo_extern other_bucket_flags demo_world) = 0
   \<and> flag_dir default_flags = [] \<and> flag_bucket default_flags = defaultS3Bucket
   \<and> fst (main demo_extern default_flags demo_world) = 1"
  by code_simp

text \<open>
  C7, as the code has it: for every command line without \<^verbatim>\<open>-v\<close> whose directory
  argument is empty, the command prints the configuration error and exits with status 1
  when the bucket is the default bucket, and goes on to the upload run when it is any
  other bucket.
\<close>

theorem directory_is_required_for_default_bucket:
  assumes "\<not> flag_v fl" and "flag_dir fl = []"
  shows "(flag_bucket fl = defaultS3Bucket \<longrightarrow>
            main X fl w =
              (1, print (''Error: To use the default bucket you need to specify an upload directory (-dir)''
                           @ [CHR 0x0A]) w))
         \<and> (flag_bucket fl \<noteq> defaultS3Bucket \<longrightarrow> main X fl w = main_run X fl w)"
  using assms by (simp add: main_def fatal_def)

theorem directory_is_required_for_default_bucket_witness:
  "\<not> flag_v default_flags \<and> flag_dir default_flags = [] \<and> flag_bucket default_flags = defaultS3Bucket
   \<and> main demo_extern default_flags demo_world =
        (1, print (''Error: To use the default bucket you need to specify an upload directory (-dir)''
                     @ [CHR 0x0A]) demo_world)
   \<and> \<not> flag_v other_bucket_flags \<and> flag_dir other_bucket_flags = []
   \<and> flag_bucket other_bucket_flags \<noteq> defaultS3Bucket
   \<and> main demo_extern other_bucket_flags demo_world = main_run demo_extern other_bucket_flags demo_world"
proof -
  have d: "\<not> flag_v default_flags" "flag_dir default_flags = []" "flag_bucket default_flags = defaultS3Bucket"
    by (simp_all add: default_flags_def)
  have b: "\<not> flag_v other_bucket_flags" "flag_dir other_bucket_flags = []"
    "flag_bucket other_bucket_flags \<noteq> defaultS3Bucket"
    by (simp_all add: other_bucket_flags_def default_flags_def defaultS3Bucket_def)
  from directory_is_required_for_default_bucket [OF d(1) d(2), of demo_extern demo_world]
    directory_is_required_for_default_bucket [OF b(1) b(2), of demo_extern demo_world] d b
  show ?thesis
    by simp
qed

end
